theory Spec2Isabelle
  imports Main "HOL-Library.Sublist" "HOL-Library.Char_ord" "HOL-Library.List_Lexorder"
begin

section \<open>Python strings and exceptions\<close>

text \<open>
  The exceptions the modelled code can end with. \<open>ValueError\<close> and \<open>TypeError\<close> are
  Python's own (a failed tuple unpacking, a call with an unknown keyword argument);
  \<open>IllegalImportPath\<close> and \<open>ImportPathExists\<close> are the classes of documents.py;
  \<open>InvalidArgumentError\<close> is the engine's, raised by \<open>Document.add_term\<close> on an empty
  term and by \<open>Document.remove_term\<close> on a term the document does not hold;
  \<open>ExtractionError\<close> stands for a failure of the text extractor.
\<close>

datatype error =
    ValueError
  | TypeError
  | IllegalImportPath
  | ImportPathExists nat
  | InvalidArgumentError
  | ExtractionError

text \<open>
  \<open>s.find(sub)\<close>: the lowest index at which \<open>sub\<close> occurs in \<open>s\<close>, or \<open>-1\<close>.
\<close>

fun str_find_from :: "nat \<Rightarrow> string \<Rightarrow> string \<Rightarrow> int" where
  "str_find_from i [] sub = (if sub = [] then int i else - 1)"
| "str_find_from i (c # cs) sub =
     (if prefix sub (c # cs) then int i else str_find_from (Suc i) cs sub)"

definition str_find :: "string \<Rightarrow> string \<Rightarrow> int" where
  "str_find s sub = str_find_from 0 s sub"

text \<open>\<open>s.upper()\<close> on a byte string: the ASCII letters a to z are raised, every other byte is kept.\<close>

definition upper_char :: "char \<Rightarrow> char" where
  "upper_char c =
     (case map_of (zip ''abcdefghijklmnopqrstuvwxyz'' ''ABCDEFGHIJKLMNOPQRSTUVWXYZ'') c of
        Some u \<Rightarrow> u
      | None \<Rightarrow> c)"

definition upper :: "string \<Rightarrow> string" where
  "upper s = map upper_char s"

text \<open>\<open>'%s' % n\<close> for a non-negative integer: its decimal digits.\<close>

fun str_of_nat :: "nat \<Rightarrow> string" where
  "str_of_nat n =
     (if n < 10 then [''0123456789'' ! n]
      else str_of_nat (n div 10) @ [''0123456789'' ! (n mod 10)])"

declare str_of_nat.simps [simp del]

text \<open>
  \<open>a, b = s\<close> where \<open>s\<close> is the value returned by \<open>_basename_for_path\<close>: a string is
  unpacked character by character, so the assignment succeeds only on a string of exactly two
  characters; any other string raises \<open>ValueError\<close>, and \<open>None\<close> raises \<open>TypeError\<close>.
\<close>

fun unpack_pair :: "string option \<Rightarrow> error + (string \<times> string)" where
  "unpack_pair None = Inl TypeError"
| "unpack_pair (Some [a, b]) = Inr ([a], [b])"
| "unpack_pair (Some s) = Inl ValueError"

section \<open>database.py: the prefix tables\<close>

definition BOOLEAN_PREFIX_INTERNAL :: "(string \<times> string) list" where
  "BOOLEAN_PREFIX_INTERNAL =
     [(''url'', ''U''),
      (''file'', ''P''),
      (''type'', ''T'')]"

definition BOOLEAN_PREFIX_EXTERNAL :: "(string \<times> string) list" where
  "BOOLEAN_PREFIX_EXTERNAL =
     [(''id'', ''Q''),
      (''tag'', ''K''),
      (''source'', ''XSOURCE:''),
      (''fulltitle'', ''XTITLE:''),
      (''fullauthors'', ''XAUTHORS:''),
      (''year'', ''Y'')]"

definition PROBABILISTIC_PREFIX :: "(string \<times> string) list" where
  "PROBABILISTIC_PREFIX =
     [(''title'', ''S''),
      (''subject'', ''S''),
      (''author'', ''A'')]"

text \<open>\<open>name in table\<close> for one of the three dictionaries.\<close>

definition has_key :: "(string \<times> string) list \<Rightarrow> string \<Rightarrow> bool" where
  "has_key table name = (name \<in> set (map fst table))"

text \<open>
  \<open>Database._find_prefix\<close>. The three tables are tried in order; a name in none of them
  falls off the end of the function, which returns \<open>None\<close>.
\<close>

definition find_prefix :: "string \<Rightarrow> string option" where
  "find_prefix name =
     (if has_key BOOLEAN_PREFIX_INTERNAL name then map_of BOOLEAN_PREFIX_INTERNAL name
      else if has_key BOOLEAN_PREFIX_EXTERNAL name then map_of BOOLEAN_PREFIX_EXTERNAL name
      else if has_key PROBABILISTIC_PREFIX name then map_of PROBABILISTIC_PREFIX name
      else None)"

text \<open>The field names some table knows.\<close>

definition recognized :: "string \<Rightarrow> bool" where
  "recognized name =
     (has_key BOOLEAN_PREFIX_INTERNAL name \<or> has_key BOOLEAN_PREFIX_EXTERNAL name
      \<or> has_key PROBABILISTIC_PREFIX name)"

text \<open>\<open>Database._make_source_prefix\<close>: \<open>'X%s:' % (source.upper())\<close>.\<close>

definition make_source_prefix :: "string \<Rightarrow> string" where
  "make_source_prefix source = ''X'' @ upper source @ '':''"

section \<open>database.py: the path resolver\<close>

text \<open>
  \<open>Database._basename_for_path\<close>, with the database's root as first argument. Python's
  \<open>path[index:]\<close> is \<open>drop index path\<close>.
\<close>

definition basename_for_path :: "string \<Rightarrow> string \<Rightarrow> string option" where
  "basename_for_path root path =
     (if str_find path ''/'' = 0 then
        (if str_find path root = 0 then
           (let index = length root in Some (drop index path))
         else None)
      else Some path)"

section \<open>The index engine\<close>

text \<open>
  The engine (Xapian) is an external library. Its objects are modelled by what the two
  source files use of them.

  An engine document holds its terms in a map ordered by term, one entry per term, and an
  opaque data string; a document fetched from a database also knows its id (a new one
  answers 0). Iterating over the document yields the terms in that order.
\<close>

record xapian_document =
  doc_terms :: "string list"
  doc_data :: string
  doc_id :: nat

definition xapian_Document :: xapian_document where
  "xapian_Document = \<lparr>doc_terms = [], doc_data = [], doc_id = 0\<rparr>"

text \<open>The invariant of the term map: ordered by term, no term twice.\<close>

definition terms_ok :: "string list \<Rightarrow> bool" where
  "terms_ok ts = (sorted ts \<and> distinct ts)"

text \<open>Entering a term into the term map: nothing changes when it is already there.\<close>

definition post_term :: "string \<Rightarrow> string list \<Rightarrow> string list" where
  "post_term t ts = (if t \<in> set ts then ts else insort t ts)"

text \<open>
  \<open>Document.add_term(term)\<close>: the engine refuses the empty term.
  \<open>Document.remove_term(term)\<close>: the engine raises when the document does not hold the term.
\<close>

definition xapian_add_term :: "string \<Rightarrow> xapian_document \<Rightarrow> error + xapian_document" where
  "xapian_add_term t d =
     (if t = [] then Inl InvalidArgumentError
      else Inr (d\<lparr>doc_terms := post_term t (doc_terms d)\<rparr>))"

definition xapian_remove_term :: "string \<Rightarrow> xapian_document \<Rightarrow> error + xapian_document" where
  "xapian_remove_term t d =
     (if t \<in> set (doc_terms d) then Inr (d\<lparr>doc_terms := removeAll t (doc_terms d)\<rparr>)
      else Inl InvalidArgumentError)"

text \<open>
  \<open>TermGenerator.index_text(text, 1, prefix)\<close>. The tokenizer and stemmer are the
  engine's: the parameter \<open>tg\<close> gives, for a text and a prefix, the terms the generator
  posts. Posting only ever enters terms into the document.
\<close>

definition xapian_index_text ::
  "(string \<Rightarrow> string \<Rightarrow> string list) \<Rightarrow> string \<Rightarrow> string \<Rightarrow> xapian_document \<Rightarrow> xapian_document" where
  "xapian_index_text tg text pfx d = d\<lparr>doc_terms := fold post_term (tg text pfx) (doc_terms d)\<rparr>"

text \<open>
  An engine database: its documents in the order of their ids, and the highest id ever
  used. \<open>replace_document(did, doc)\<close> stores the document under the id, in place of the
  one that had it, and raises the highest id to \<open>did\<close> when it was lower; the id 0 is
  refused.
\<close>

record xapian_database =
  documents :: "xapian_document list"
  lastdocid :: nat

definition get_lastdocid :: "xapian_database \<Rightarrow> nat" where
  "get_lastdocid X = lastdocid X"

definition get_doccount :: "xapian_database \<Rightarrow> nat" where
  "get_doccount X = length (documents X)"

definition replace_document ::
  "nat \<Rightarrow> xapian_document \<Rightarrow> xapian_database \<Rightarrow> error + xapian_database" where
  "replace_document did d X =
     (if did = 0 then Inl InvalidArgumentError
      else Inr (X\<lparr>documents :=
                     insort_key doc_id (d\<lparr>doc_id := did\<rparr>)
                       (filter (\<lambda>x. doc_id x \<noteq> did) (documents X)),
                   lastdocid := max (lastdocid X) did\<rparr>))"

text \<open>
  Queries: every document, the documents holding one term, or a parsed query string,
  whose meaning is the query parser's (the parameter \<open>qp\<close>).
\<close>

datatype query = MatchAll | TermQuery string | ParsedQuery string

fun query_matches :: "(string \<Rightarrow> xapian_document \<Rightarrow> bool) \<Rightarrow> query \<Rightarrow> xapian_document \<Rightarrow> bool" where
  "query_matches qp MatchAll d = True"
| "query_matches qp (TermQuery t) d = (t \<in> set (doc_terms d))"
| "query_matches qp (ParsedQuery s) d = qp s d"

text \<open>
  \<open>Enquire.get_mset(first, maxitems)\<close>: at most \<open>maxitems\<close> of the matching documents
  from position \<open>first\<close> on, with the number of all matches. Documents of equal weight
  come in the order of their ids, which is the order taken here.
\<close>

record mset =
  items :: "xapian_document list"
  matches_estimated :: nat

definition get_mset ::
  "(string \<Rightarrow> xapian_document \<Rightarrow> bool) \<Rightarrow> xapian_database \<Rightarrow> query \<Rightarrow> nat \<Rightarrow> nat \<Rightarrow> mset" where
  "get_mset qp X q first maxitems =
     (let found = filter (query_matches qp q) (documents X)
      in \<lparr>items = take maxitems (drop first found), matches_estimated = length found\<rparr>)"

definition get_matches_estimated :: "mset \<Rightarrow> nat" where
  "get_matches_estimated m = matches_estimated m"

section \<open>database.py: ids, search and lookup\<close>

record Database =
  db_root :: string
  xapian_db :: xapian_database

text \<open>\<open>Database._generate_docid\<close>.\<close>

definition generate_docid :: "Database \<Rightarrow> nat" where
  "generate_docid db = get_lastdocid (xapian_db db) + 1"

text \<open>\<open>Database._search(self, query_string, limit=0)\<close>.\<close>

definition search_mset ::
  "(string \<Rightarrow> xapian_document \<Rightarrow> bool) \<Rightarrow> Database \<Rightarrow> string \<Rightarrow> int \<Rightarrow> mset" where
  "search_mset qp db query_string limit =
     (let q = (if query_string = ''*'' then MatchAll else ParsedQuery query_string)
      in if limit > 0 then get_mset qp (xapian_db db) q 0 (nat limit)
         else get_mset qp (xapian_db db) q 0 (get_doccount (xapian_db db)))"

text \<open>
  A call \<open>self._search(query_string, **keywords)\<close>: Python binds the keywords to the
  parameters \<open>query_string\<close> and \<open>limit\<close>. A keyword that names no parameter, or one that
  names the parameter already given by position, raises \<open>TypeError\<close> before the body runs.
\<close>

definition call_search ::
  "(string \<Rightarrow> xapian_document \<Rightarrow> bool) \<Rightarrow> Database \<Rightarrow> string \<Rightarrow> (string \<times> int) list \<Rightarrow> error + mset" where
  "call_search qp db query_string keywords =
     (if list_ex (\<lambda>k. k \<noteq> ''limit'') (map fst keywords) then Inl TypeError
      else Inr (search_mset qp db query_string
                  (case map_of keywords ''limit'' of Some l \<Rightarrow> l | None \<Rightarrow> 0)))"

text \<open>\<open>Database.count\<close>: \<open>self._search(query_string, count=0).get_matches_estimated()\<close>.\<close>

definition count :: "(string \<Rightarrow> xapian_document \<Rightarrow> bool) \<Rightarrow> Database \<Rightarrow> string \<Rightarrow> error + nat" where
  "count qp db query_string =
     (case call_search qp db query_string [(''count'', 0)] of
        Inl e \<Rightarrow> Inl e
      | Inr m \<Rightarrow> Inr (get_matches_estimated m))"

section \<open>documents.py: the Document class\<close>

record Document =
  doc :: xapian_document
  docid :: nat
  self_path :: "string list option"

text \<open>\<open>Document._add_term\<close> and \<open>Document._remove_term\<close>: the term is \<open>'%s%s' % (prefix, value)\<close>.\<close>

definition add_term :: "string \<Rightarrow> string \<Rightarrow> Document \<Rightarrow> error + Document" where
  "add_term pfx v D =
     (let t = pfx @ v
      in case xapian_add_term t (doc D) of Inl e \<Rightarrow> Inl e | Inr d \<Rightarrow> Inr (D\<lparr>doc := d\<rparr>))"

definition remove_term :: "string \<Rightarrow> string \<Rightarrow> Document \<Rightarrow> error + Document" where
  "remove_term pfx v D =
     (let t = pfx @ v
      in case xapian_remove_term t (doc D) of Inl e \<Rightarrow> Inl e | Inr d \<Rightarrow> Inr (D\<lparr>doc := d\<rparr>))"

text \<open>
  \<open>Document._gen_terms(prefix, text)\<close>. The prefix may be \<open>None\<close>; \<open>if prefix\<close> is false
  for \<open>None\<close> and for the empty string.
\<close>

definition gen_terms ::
  "(string \<Rightarrow> string \<Rightarrow> string list) \<Rightarrow> string option \<Rightarrow> string \<Rightarrow> Document \<Rightarrow> Document" where
  "gen_terms tg pfx text D =
     (let d1 = (case pfx of
                  None \<Rightarrow> doc D
                | Some p \<Rightarrow> if p \<noteq> [] then xapian_index_text tg text p (doc D) else doc D)
      in D\<lparr>doc := xapian_index_text tg text [] d1\<rparr>)"

text \<open>\<open>Document._get_terms(prefix)\<close>.\<close>

definition get_terms :: "string \<Rightarrow> Document \<Rightarrow> string list" where
  "get_terms pfx D =
     map (\<lambda>t. let index = length pfx in drop index t)
       (filter (\<lambda>t. str_find t pfx = 0) (doc_terms (doc D)))"

definition set_data :: "string \<Rightarrow> Document \<Rightarrow> Document" where
  "set_data text D = D\<lparr>doc := (doc D)\<lparr>doc_data := text\<rparr>\<rparr>"

definition get_docid :: "Document \<Rightarrow> nat" where
  "get_docid D = docid D"

text \<open>
  \<open>Document.__init__(self, db, doc=None)\<close>. An engine document is a true value, so a
  document that is given takes the first branch. Neither branch writes to the database.
  The field names passed to \<open>_find_prefix\<close> in this file are literals that the tables
  know, so the prefix is always there.
\<close>

definition Document_init :: "Database \<Rightarrow> xapian_document option \<Rightarrow> error + Document" where
  "Document_init db given =
     (case given of
        Some d \<Rightarrow>
          (let D = \<lparr>doc = d, docid = doc_id d, self_path = None\<rparr>
           in Inr (D\<lparr>self_path := Some (get_terms (the (find_prefix ''file'')) D)\<rparr>))
      | None \<Rightarrow>
          (let D = \<lparr>doc = xapian_Document, docid = generate_docid db, self_path = None\<rparr>
           in add_term (the (find_prefix ''id'')) (str_of_nat (docid D)) D))"

text \<open>\<open>Document.sync\<close>: the one write to the database.\<close>

definition sync :: "Document \<Rightarrow> Database \<Rightarrow> error + Database" where
  "sync D db =
     (case replace_document (docid D) (doc D) (xapian_db db) of
        Inl e \<Rightarrow> Inl e
      | Inr X \<Rightarrow> Inr (db\<lparr>xapian_db := X\<rparr>))"

text \<open>
  The rest of a session, as far as the database goes: documents are synced one after
  another, and a sync that raises leaves the database as it was.
\<close>

fun after_syncs :: "Document list \<Rightarrow> Database \<Rightarrow> Database" where
  "after_syncs [] db = db"
| "after_syncs (D # Ds) db =
     after_syncs Ds (case sync D db of Inl e \<Rightarrow> db | Inr db' \<Rightarrow> db')"

text \<open>
  \<open>Database._doc_for_term\<close>, \<open>doc_for_docid\<close> and \<open>doc_for_path\<close>. \<open>if mset\<close> asks whether
  the match set holds an item.
\<close>

definition doc_for_term :: "Database \<Rightarrow> string \<Rightarrow> error + Document option" where
  "doc_for_term db t =
     (let m = get_mset (\<lambda>s d. False) (xapian_db db) (TermQuery t) 0 2
      in case items m of
           x # _ \<Rightarrow> (case Document_init db (Some x) of Inl e \<Rightarrow> Inl e | Inr D \<Rightarrow> Inr (Some D))
         | [] \<Rightarrow> Inr None)"

definition doc_for_docid :: "Database \<Rightarrow> string \<Rightarrow> error + Document option" where
  "doc_for_docid db did = (let t = the (find_prefix ''id'') @ did in doc_for_term db t)"

definition doc_for_path :: "Database \<Rightarrow> string \<Rightarrow> error + Document option" where
  "doc_for_path db p = (let t = the (find_prefix ''file'') @ p in doc_for_term db t)"

section \<open>documents.py: files\<close>

text \<open>
  \<open>Document.add_path\<close>, \<open>Document._index_file\<close> and \<open>Document.add_file\<close>. Each begins
  with \<open>base, full = self.db._basename_for_path(path)\<close>, which unpacks the one value
  that \<open>_basename_for_path\<close> returns. The text extractor (\<open>parser.parse_file\<close>) is not
  part of the two files: it is the parameter \<open>parse_file\<close>. The summary is
  \<open>text[0:997].translate(None, '\n') + '...'\<close>.
\<close>

definition add_path :: "Database \<Rightarrow> string \<Rightarrow> Document \<Rightarrow> error + Document" where
  "add_path db path D =
     (case unpack_pair (basename_for_path (db_root db) path) of
        Inl e \<Rightarrow> Inl e
      | Inr (base, full) \<Rightarrow> (let pfx = the (find_prefix ''file'') in add_term pfx base D))"

definition index_file ::
  "(string \<Rightarrow> error + string) \<Rightarrow> (string \<Rightarrow> string \<Rightarrow> string list) \<Rightarrow> Database \<Rightarrow> string
     \<Rightarrow> Document \<Rightarrow> error + (string \<times> Document)" where
  "index_file parse_file tg db path D =
     (case unpack_pair (basename_for_path (db_root db) path) of
        Inl e \<Rightarrow> Inl e
      | Inr (base, full) \<Rightarrow>
          (case parse_file full of
             Inl e \<Rightarrow> Inl e
           | Inr text \<Rightarrow>
               (let D1 = gen_terms tg None text D;
                    summary = filter (\<lambda>c. c \<noteq> CHR 0x0A) (take 997 text) @ ''...''
                in Inr (summary, D1))))"

definition add_file ::
  "(string \<Rightarrow> error + string) \<Rightarrow> (string \<Rightarrow> string \<Rightarrow> string list) \<Rightarrow> Database \<Rightarrow> string
     \<Rightarrow> Document \<Rightarrow> error + Document" where
  "add_file parse_file tg db path D =
     (case unpack_pair (basename_for_path (db_root db) path) of
        Inl e \<Rightarrow> Inl e
      | Inr (base, full) \<Rightarrow>
          if base = [] then Inl IllegalImportPath
          else
            (case doc_for_path db base of
               Inl e \<Rightarrow> Inl e
             | Inr (Some found) \<Rightarrow> Inl (ImportPathExists (get_docid found))
             | Inr None \<Rightarrow>
                 (case index_file parse_file tg db full D of
                    Inl e \<Rightarrow> Inl e
                  | Inr (summary, D1) \<Rightarrow>
                      (case add_path db path D1 of
                         Inl e \<Rightarrow> Inl e
                       | Inr D2 \<Rightarrow> Inr (set_data summary D2)))))"

section \<open>documents.py: fields\<close>

text \<open>
  The loop \<open>for term in self._get_terms(prefix): self._remove_term(prefix, term)\<close>, over
  the list that \<open>_get_terms\<close> returned before the loop began.
\<close>

fun remove_each :: "string \<Rightarrow> string list \<Rightarrow> Document \<Rightarrow> error + Document" where
  "remove_each pfx [] D = Inr D"
| "remove_each pfx (v # vs) D =
     (case remove_term pfx v D of Inl e \<Rightarrow> Inl e | Inr D' \<Rightarrow> remove_each pfx vs D')"

text \<open>Sources: \<open>_add_source\<close>, \<open>get_source_id\<close>, \<open>get_sources\<close>, \<open>remove_source\<close>.\<close>

definition add_source :: "string \<Rightarrow> string \<Rightarrow> Document \<Rightarrow> error + Document" where
  "add_source source sid D =
     (case add_term (the (find_prefix ''source'')) source D of
        Inl e \<Rightarrow> Inl e
      | Inr D1 \<Rightarrow> add_term (make_source_prefix source) sid D1)"

definition get_source_id :: "string \<Rightarrow> Document \<Rightarrow> string option" where
  "get_source_id source D =
     (let pfx = make_source_prefix source; sid = get_terms pfx D
      in case sid of s # _ \<Rightarrow> Some s | [] \<Rightarrow> None)"

text \<open>
  The dictionary that \<open>get_sources\<close> builds: the loop stops at the first empty source
  name, and a source without an id term is entered with the value \<open>None\<close>.
\<close>

fun get_sources_loop ::
  "Document \<Rightarrow> string list \<Rightarrow> (string \<rightharpoonup> string option) \<Rightarrow> (string \<rightharpoonup> string option)" where
  "get_sources_loop D [] sources = sources"
| "get_sources_loop D (source # rest) sources =
     (if source = [] then sources
      else get_sources_loop D rest (sources(source \<mapsto> get_source_id source D)))"

definition get_sources :: "Document \<Rightarrow> (string \<rightharpoonup> string option)" where
  "get_sources D =
     (let pfx = the (find_prefix ''source'') in get_sources_loop D (get_terms pfx D) Map.empty)"

text \<open>
  \<open>remove_source\<close> is modelled with the document it leaves behind. The engine document is
  changed in place, so when a step raises, the removals made before it stand: the outcome
  of a call is the exception, if one was raised, together with the document as the call
  left it. \<open>remove_each_in_place\<close> is the loop of \<open>remove_each\<close> with that outcome; a
  \<open>_remove_term\<close> that raises changes nothing.
\<close>

fun remove_each_in_place :: "string \<Rightarrow> string list \<Rightarrow> Document \<Rightarrow> error option \<times> Document" where
  "remove_each_in_place pfx [] D = (None, D)"
| "remove_each_in_place pfx (v # vs) D =
     (case remove_term pfx v D of
        Inl e \<Rightarrow> (Some e, D)
      | Inr D' \<Rightarrow> remove_each_in_place pfx vs D')"

definition remove_source :: "string \<Rightarrow> Document \<Rightarrow> error option \<times> Document" where
  "remove_source source D =
     (let pfx = make_source_prefix source
      in case remove_each_in_place pfx (get_terms pfx D) D of
           (Some e, D1) \<Rightarrow> (Some e, D1)
         | (None, D1) \<Rightarrow>
             (case remove_term (the (find_prefix ''source'')) source D1 of
                Inl e \<Rightarrow> (Some e, D1)
              | Inr D2 \<Rightarrow> (None, D2)))"

text \<open>The single-valued fields: url, title, authors, year.\<close>

definition set_url :: "string \<Rightarrow> Document \<Rightarrow> error + Document" where
  "set_url url D =
     (let pfx = the (find_prefix ''url'')
      in case remove_each pfx (get_terms pfx D) D of
           Inl e \<Rightarrow> Inl e
         | Inr D1 \<Rightarrow> add_term pfx url D1)"

definition get_url :: "Document \<Rightarrow> string" where
  "get_url D =
     (let pfx = the (find_prefix ''url''); url = get_terms pfx D
      in case url of u # _ \<Rightarrow> u | [] \<Rightarrow> [])"

definition set_title ::
  "(string \<Rightarrow> string \<Rightarrow> string list) \<Rightarrow> string \<Rightarrow> Document \<Rightarrow> error + Document" where
  "set_title tg title D =
     (let pt = the (find_prefix ''title''); pf = the (find_prefix ''fulltitle'')
      in case remove_each pt (get_terms pt D) D of
           Inl e \<Rightarrow> Inl e
         | Inr D1 \<Rightarrow>
             (case remove_each ''ZS'' (get_terms ''ZS'' D1) D1 of
                Inl e \<Rightarrow> Inl e
              | Inr D2 \<Rightarrow>
                  (case remove_each pf (get_terms pf D2) D2 of
                     Inl e \<Rightarrow> Inl e
                   | Inr D3 \<Rightarrow> add_term pf title (gen_terms tg (Some pt) title D3))))"

definition get_title :: "Document \<Rightarrow> string" where
  "get_title D =
     (let title = get_terms (the (find_prefix ''fulltitle'')) D
      in case title of t # _ \<Rightarrow> t | [] \<Rightarrow> [])"

definition set_authors ::
  "(string \<Rightarrow> string \<Rightarrow> string list) \<Rightarrow> string \<Rightarrow> Document \<Rightarrow> error + Document" where
  "set_authors tg authors D =
     (let pa = the (find_prefix ''author''); pf = the (find_prefix ''fullauthors'')
      in case remove_each pa (get_terms pa D) D of
           Inl e \<Rightarrow> Inl e
         | Inr D1 \<Rightarrow>
             (case remove_each ''ZA'' (get_terms ''ZA'' D1) D1 of
                Inl e \<Rightarrow> Inl e
              | Inr D2 \<Rightarrow>
                  (case remove_each pf (get_terms pf D2) D2 of
                     Inl e \<Rightarrow> Inl e
                   | Inr D3 \<Rightarrow> add_term pf authors (gen_terms tg (Some pa) authors D3))))"

definition get_authors :: "Document \<Rightarrow> string" where
  "get_authors D =
     (let authors = get_terms (the (find_prefix ''fullauthors'')) D
      in case authors of a # _ \<Rightarrow> a | [] \<Rightarrow> [])"

definition set_year :: "string \<Rightarrow> Document \<Rightarrow> error + Document" where
  "set_year year D =
     (let pfx = the (find_prefix ''year'')
      in case remove_each pfx (get_terms pfx D) D of
           Inl e \<Rightarrow> Inl e
         | Inr D1 \<Rightarrow> add_term pfx year D1)"

definition get_year :: "Document \<Rightarrow> string" where
  "get_year D =
     (let pfx = the (find_prefix ''year''); year = get_terms pfx D
      in case year of y # _ \<Rightarrow> y | [] \<Rightarrow> [])"

section \<open>Specification: a document without the terms under a prefix\<close>

text \<open>What a removal loop over the terms under a prefix is meant to leave.\<close>

definition without_prefix :: "string \<Rightarrow> Document \<Rightarrow> Document" where
  "without_prefix pfx D =
     D\<lparr>doc := (doc D)\<lparr>doc_terms := filter (\<lambda>t. \<not> prefix pfx t) (doc_terms (doc D))\<rparr>\<rparr>"

section \<open>Properties of the string primitives\<close>

lemma str_find_from_lower: "str_find_from i s sub = - 1 \<or> int i \<le> str_find_from i s sub"
  by (induction s arbitrary: i) (auto, force)

lemma str_find_from_zero: "str_find_from i s sub = 0 \<longleftrightarrow> i = 0 \<and> prefix sub s"
proof (induction s arbitrary: i)
  case Nil
  then show ?case by auto
next
  case (Cons c cs)
  have "str_find_from (Suc i) cs sub \<noteq> 0"
    using str_find_from_lower [of "Suc i" cs sub] by auto
  then show ?case by auto
qed

lemma str_find_zero_iff: "str_find s sub = 0 \<longleftrightarrow> prefix sub s"
  by (simp add: str_find_def str_find_from_zero)

section \<open>The prefix registry\<close>

text \<open>
  C1 (as stated, refuted): two distinct recognized field names with the same prefix. The
  probabilistic table maps both \<open>title\<close> and \<open>subject\<close> to \<open>S\<close>.
\<close>

theorem find_prefix_title_subject_collide:
  "recognized ''title'' \<and> recognized ''subject'' \<and> ''title'' \<noteq> ''subject''
   \<and> find_prefix ''title'' = find_prefix ''subject''"
  by (simp add: recognized_def find_prefix_def has_key_def BOOLEAN_PREFIX_INTERNAL_def
      BOOLEAN_PREFIX_EXTERNAL_def PROBABILISTIC_PREFIX_def)

lemma recognized_cases:
  "recognized name \<longleftrightarrow>
     name \<in> {''url'', ''file'', ''type'', ''id'', ''tag'', ''source'', ''fulltitle'',
             ''fullauthors'', ''year'', ''title'', ''subject'', ''author''}"
  by (auto simp: recognized_def has_key_def BOOLEAN_PREFIX_INTERNAL_def
      BOOLEAN_PREFIX_EXTERNAL_def PROBABILISTIC_PREFIX_def)

lemma find_prefix_values:
  "find_prefix ''url'' = Some ''U''"
  "find_prefix ''file'' = Some ''P''"
  "find_prefix ''type'' = Some ''T''"
  "find_prefix ''id'' = Some ''Q''"
  "find_prefix ''tag'' = Some ''K''"
  "find_prefix ''source'' = Some ''XSOURCE:''"
  "find_prefix ''fulltitle'' = Some ''XTITLE:''"
  "find_prefix ''fullauthors'' = Some ''XAUTHORS:''"
  "find_prefix ''year'' = Some ''Y''"
  "find_prefix ''title'' = Some ''S''"
  "find_prefix ''subject'' = Some ''S''"
  "find_prefix ''author'' = Some ''A''"
  by (simp_all add: find_prefix_def has_key_def BOOLEAN_PREFIX_INTERNAL_def
      BOOLEAN_PREFIX_EXTERNAL_def PROBABILISTIC_PREFIX_def)

text \<open>
  C1 (amended): for every pair of distinct recognized field names other than the pair
  \<open>title\<close>, \<open>subject\<close>, the prefixes returned by \<open>_find_prefix\<close> differ.
\<close>

theorem find_prefix_distinct_apart_from_title_subject:
  assumes "recognized f1" and "recognized f2" and "f1 \<noteq> f2"
    and "{f1, f2} \<noteq> {''title'', ''subject''}"
  shows "find_prefix f1 \<noteq> find_prefix f2"
proof -
  from assms(1) have c1:
    "f1 \<in> {''url'', ''file'', ''type'', ''id'', ''tag'', ''source'', ''fulltitle'',
            ''fullauthors'', ''year'', ''title'', ''subject'', ''author''}"
    by (simp only: recognized_cases)
  from assms(2) have c2:
    "f2 \<in> {''url'', ''file'', ''type'', ''id'', ''tag'', ''source'', ''fulltitle'',
            ''fullauthors'', ''year'', ''title'', ''subject'', ''author''}"
    by (simp only: recognized_cases)
  from c1 c2 assms(3,4) show ?thesis
    by (elim insertE emptyE; simp add: find_prefix_values doubleton_eq_iff)
qed

theorem find_prefix_distinct_apart_from_title_subject_witness:
  "recognized ''url'' \<and> recognized ''year'' \<and> ''url'' \<noteq> ''year''
   \<and> {''url'', ''year''} \<noteq> {''title'', ''subject''}
   \<and> find_prefix ''url'' \<noteq> find_prefix ''year''"
proof -
  have r1: "recognized ''url''" and r2: "recognized ''year''"
    by (simp_all add: recognized_cases)
  have ne: "''url'' \<noteq> ''year''" by simp
  have pair: "{''url'', ''year''} \<noteq> {''title'', ''subject''}"
    by (simp add: doubleton_eq_iff)
  from find_prefix_distinct_apart_from_title_subject [OF r1 r2 ne pair] r1 r2 ne pair
  show ?thesis by blast
qed

section \<open>The path resolver\<close>

text \<open>
  C6: \<open>_basename_for_path\<close> returns the path unchanged when it does not start with the
  separator; the remainder after the root when the path starts with the separator and
  the root is a prefix of it; and \<open>None\<close> when the path starts with the separator and
  the root is not a prefix of it.
\<close>

theorem basename_for_path_cases:
  "(\<not> prefix ''/'' path \<longrightarrow> basename_for_path root path = Some path)
   \<and> (prefix ''/'' (root @ rest) \<longrightarrow> basename_for_path root (root @ rest) = Some rest)
   \<and> (prefix ''/'' path \<and> \<not> prefix root path \<longrightarrow> basename_for_path root path = None)"
  by (simp add: basename_for_path_def str_find_zero_iff)

theorem basename_for_path_cases_witness:
  "\<not> prefix ''/'' ''a.pdf'' \<and> basename_for_path ''/lib'' ''a.pdf'' = Some ''a.pdf''
   \<and> prefix ''/'' (''/lib'' @ ''/a.pdf'')
   \<and> basename_for_path ''/lib'' (''/lib'' @ ''/a.pdf'') = Some ''/a.pdf''
   \<and> prefix ''/'' ''/tmp/a.pdf'' \<and> \<not> prefix ''/lib'' ''/tmp/a.pdf''
   \<and> basename_for_path ''/lib'' ''/tmp/a.pdf'' = None"
proof -
  have h1: "\<not> prefix ''/'' ''a.pdf''" by simp
  have h2: "prefix ''/'' (''/lib'' @ ''/a.pdf'')" by simp
  have h3: "prefix ''/'' ''/tmp/a.pdf'' \<and> \<not> prefix ''/lib'' ''/tmp/a.pdf''" by simp
  from basename_for_path_cases [of "''a.pdf''" "''/lib''" "''/a.pdf''"] h1
  have r1: "basename_for_path ''/lib'' ''a.pdf'' = Some ''a.pdf''" by blast
  from basename_for_path_cases [of "''a.pdf''" "''/lib''" "''/a.pdf''"] h2
  have r2: "basename_for_path ''/lib'' (''/lib'' @ ''/a.pdf'') = Some ''/a.pdf''" by blast
  from basename_for_path_cases [of "''/tmp/a.pdf''" "''/lib''" "''''"] h3
  have r3: "basename_for_path ''/lib'' ''/tmp/a.pdf'' = None" by blast
  from h1 h2 h3 r1 r2 r3 show ?thesis by blast
qed

section \<open>Terms of a document\<close>

lemma get_terms_eq:
  "get_terms pfx D = map (drop (length pfx)) (filter (prefix pfx) (doc_terms (doc D)))"
  by (simp add: get_terms_def str_find_zero_iff)

lemma restore_prefix: "prefix pfx t \<Longrightarrow> pfx @ drop (length pfx) t = t"
  by (auto simp: prefix_def)

lemma map_restore_prefix:
  "map ((@) pfx) (map (drop (length pfx)) (filter (prefix pfx) ts)) = filter (prefix pfx) ts"
  by (induction ts) (auto simp: restore_prefix)

lemma remove_each_listed:
  assumes "distinct (map ((@) pfx) vs)" and "set (map ((@) pfx) vs) \<subseteq> set (doc_terms (doc D))"
  shows "remove_each pfx vs D =
           Inr (D\<lparr>doc := (doc D)\<lparr>doc_terms :=
                  filter (\<lambda>t. t \<notin> set (map ((@) pfx) vs)) (doc_terms (doc D))\<rparr>\<rparr>)"
  using assms
proof (induction vs arbitrary: D)
  case Nil
  then show ?case by simp
next
  case (Cons v vs)
  let ?D' = "D\<lparr>doc := (doc D)\<lparr>doc_terms := removeAll (pfx @ v) (doc_terms (doc D))\<rparr>\<rparr>"
  from Cons.prems have step: "remove_term pfx v D = Inr ?D'"
    by (simp add: remove_term_def xapian_remove_term_def)
  from Cons.prems have d: "distinct (map ((@) pfx) vs)"
    and s: "set (map ((@) pfx) vs) \<subseteq> set (doc_terms (doc ?D'))"
    by auto
  have "remove_each pfx vs ?D' =
          Inr (?D'\<lparr>doc := (doc ?D')\<lparr>doc_terms :=
                 filter (\<lambda>t. t \<notin> set (map ((@) pfx) vs)) (doc_terms (doc ?D'))\<rparr>\<rparr>)"
    by (rule Cons.IH [OF d s])
  moreover have "filter (\<lambda>t. t \<notin> set (map ((@) pfx) vs)) (removeAll (pfx @ v) (doc_terms (doc D)))
      = filter (\<lambda>t. t \<notin> set (map ((@) pfx) (v # vs))) (doc_terms (doc D))"
    by (induction "doc_terms (doc D)") (auto simp: removeAll_filter_not_eq filter_filter intro: filter_cong)
  ultimately show ?case using step by simp
qed

lemma remove_each_prefix:
  assumes "distinct (doc_terms (doc D))"
  shows "remove_each pfx (get_terms pfx D) D =
           Inr (D\<lparr>doc := (doc D)\<lparr>doc_terms :=
                  filter (\<lambda>t. \<not> prefix pfx t) (doc_terms (doc D))\<rparr>\<rparr>)"
proof -
  have m: "map ((@) pfx) (get_terms pfx D) = filter (prefix pfx) (doc_terms (doc D))"
    unfolding get_terms_eq by (rule map_restore_prefix)
  have "remove_each pfx (get_terms pfx D) D =
           Inr (D\<lparr>doc := (doc D)\<lparr>doc_terms :=
                  filter (\<lambda>t. t \<notin> set (map ((@) pfx) (get_terms pfx D))) (doc_terms (doc D))\<rparr>\<rparr>)"
    by (rule remove_each_listed) (use assms in \<open>simp_all only: m distinct_filter\<close>, auto)
  moreover have "filter (\<lambda>t. t \<notin> set (map ((@) pfx) (get_terms pfx D))) (doc_terms (doc D))
     = filter (\<lambda>t. \<not> prefix pfx t) (doc_terms (doc D))"
    unfolding m by (auto intro: filter_cong)
  ultimately show ?thesis by simp
qed

lemma add_term_eq:
  "pfx \<noteq> [] \<Longrightarrow>
     add_term pfx v D = Inr (D\<lparr>doc := (doc D)\<lparr>doc_terms := post_term (pfx @ v) (doc_terms (doc D))\<rparr>\<rparr>)"
  by (simp add: add_term_def xapian_add_term_def)

lemma set_post_term: "set (post_term t ts) = insert t (set ts)"
  by (auto simp: post_term_def set_insort_key)

lemma terms_ok_post_term: "terms_ok ts \<Longrightarrow> terms_ok (post_term t ts)"
  by (simp add: terms_ok_def post_term_def sorted_insort distinct_insort)

lemma terms_ok_filter: "terms_ok ts \<Longrightarrow> terms_ok (filter P ts)"
  by (simp add: terms_ok_def sorted_wrt_filter)

lemma terms_ok_fold_post: "terms_ok ts \<Longrightarrow> terms_ok (fold post_term new ts)"
  by (induction new arbitrary: ts) (simp_all add: terms_ok_post_term)

lemma set_fold_post: "set (fold post_term new ts) = set new \<union> set ts"
  by (induction new arbitrary: ts) (auto simp: set_post_term)

lemma filter_insort_single:
  "P t \<Longrightarrow> \<forall>x \<in> set ts. \<not> P x \<Longrightarrow> filter P (insort t ts) = [t]"
  by (induction ts) auto

lemma filter_post_term_single:
  "P t \<Longrightarrow> \<forall>x \<in> set ts. \<not> P x \<Longrightarrow> filter P (post_term t ts) = [t]"
  by (auto simp: post_term_def filter_insort_single)

text \<open>The common shape of set_url and set_year.\<close>

lemma replace_under_prefix:
  fixes v :: string and pfx :: string and D :: Document
  assumes ok: "terms_ok (doc_terms (doc D))" and ne: "pfx \<noteq> []"
  defines "D' \<equiv> D\<lparr>doc := (doc D)\<lparr>doc_terms :=
       post_term (pfx @ v) (filter (\<lambda>t. \<not> prefix pfx t) (doc_terms (doc D)))\<rparr>\<rparr>"
  shows "(case remove_each pfx (get_terms pfx D) D of Inl e \<Rightarrow> Inl e | Inr D1 \<Rightarrow> add_term pfx v D1)
           = Inr D'"
    and "terms_ok (doc_terms (doc D'))"
    and "filter (prefix pfx) (doc_terms (doc D')) = [pfx @ v]"
    and "get_terms pfx D' = [v]"
proof -
  from ok have d: "distinct (doc_terms (doc D))" by (simp add: terms_ok_def)
  show "(case remove_each pfx (get_terms pfx D) D of Inl e \<Rightarrow> Inl e | Inr D1 \<Rightarrow> add_term pfx v D1)
           = Inr D'"
    by (simp add: remove_each_prefix [OF d] add_term_eq [OF ne] D'_def)
  show "terms_ok (doc_terms (doc D'))"
    using ok by (simp add: D'_def terms_ok_post_term terms_ok_filter)
  show f: "filter (prefix pfx) (doc_terms (doc D')) = [pfx @ v]"
    by (simp add: D'_def filter_post_term_single)
  show "get_terms pfx D' = [v]"
    by (simp add: get_terms_eq f)
qed

lemma set_url_eq:
  "set_url v D = (case remove_each ''U'' (get_terms ''U'' D) D of Inl e \<Rightarrow> Inl e | Inr D1 \<Rightarrow> add_term ''U'' v D1)"
  by (simp add: set_url_def find_prefix_values Let_def)

lemma set_year_eq:
  "set_year v D = (case remove_each ''Y'' (get_terms ''Y'' D) D of Inl e \<Rightarrow> Inl e | Inr D1 \<Rightarrow> add_term ''Y'' v D1)"
  by (simp add: set_year_def find_prefix_values Let_def)

lemma remove_each_without:
  "terms_ok (doc_terms (doc D)) \<Longrightarrow> remove_each pfx (get_terms pfx D) D = Inr (without_prefix pfx D)"
  by (simp add: remove_each_prefix terms_ok_def without_prefix_def)

lemma terms_ok_without: "terms_ok (doc_terms (doc D)) \<Longrightarrow> terms_ok (doc_terms (doc (without_prefix pfx D)))"
  by (simp add: without_prefix_def terms_ok_filter)

lemma terms_without: "set (doc_terms (doc (without_prefix pfx D))) = {t \<in> set (doc_terms (doc D)). \<not> prefix pfx t}"
  by (simp add: without_prefix_def)

lemma terms_gen_terms:
  "set (doc_terms (doc (gen_terms tg pfx text D))) =
     set (doc_terms (doc D)) \<union> set (tg text [])
       \<union> (case pfx of None \<Rightarrow> {} | Some p \<Rightarrow> if p \<noteq> [] then set (tg text p) else {})"
  by (auto simp: gen_terms_def xapian_index_text_def set_fold_post Let_def split: option.splits)

lemma terms_ok_gen_terms:
  "terms_ok (doc_terms (doc D)) \<Longrightarrow> terms_ok (doc_terms (doc (gen_terms tg pfx text D)))"
  by (auto simp: gen_terms_def xapian_index_text_def terms_ok_fold_post Let_def split: option.splits)

lemma replace_verbatim:
  fixes v pt z pf :: string and D :: Document
  assumes ok: "terms_ok (doc_terms (doc D))" and ne: "pt \<noteq> []" "pf \<noteq> []"
    and quiet: "\<forall>t \<in> set (tg v pt) \<union> set (tg v []). \<not> prefix pf t"
  shows "\<exists>D'. (case remove_each pt (get_terms pt D) D of
                 Inl e \<Rightarrow> Inl e
               | Inr D1 \<Rightarrow>
                   (case remove_each z (get_terms z D1) D1 of
                      Inl e \<Rightarrow> Inl e
                    | Inr D2 \<Rightarrow>
                        (case remove_each pf (get_terms pf D2) D2 of
                           Inl e \<Rightarrow> Inl e
                         | Inr D3 \<Rightarrow> add_term pf v (gen_terms tg (Some pt) v D3)))) = Inr D'
            \<and> terms_ok (doc_terms (doc D'))
            \<and> filter (prefix pf) (doc_terms (doc D')) = [pf @ v]
            \<and> get_terms pf D' = [v]"
proof -
  let ?D1 = "without_prefix pt D"
  let ?D2 = "without_prefix z ?D1"
  let ?D3 = "without_prefix pf ?D2"
  let ?G = "gen_terms tg (Some pt) v ?D3"
  let ?D' = "?G\<lparr>doc := (doc ?G)\<lparr>doc_terms := post_term (pf @ v) (doc_terms (doc ?G))\<rparr>\<rparr>"
  have ok1: "terms_ok (doc_terms (doc ?D1))" using ok by (rule terms_ok_without)
  have ok2: "terms_ok (doc_terms (doc ?D2))" using ok1 by (rule terms_ok_without)
  have ok3: "terms_ok (doc_terms (doc ?D3))" using ok2 by (rule terms_ok_without)
  have okG: "terms_ok (doc_terms (doc ?G))" using ok3 by (rule terms_ok_gen_terms)
  have run: "(case remove_each pt (get_terms pt D) D of
                 Inl e \<Rightarrow> Inl e
               | Inr D1 \<Rightarrow>
                   (case remove_each z (get_terms z D1) D1 of
                      Inl e \<Rightarrow> Inl e
                    | Inr D2 \<Rightarrow>
                        (case remove_each pf (get_terms pf D2) D2 of
                           Inl e \<Rightarrow> Inl e
                         | Inr D3 \<Rightarrow> add_term pf v (gen_terms tg (Some pt) v D3)))) = Inr ?D'"
    by (simp add: remove_each_without [OF ok] remove_each_without [OF ok1]
        remove_each_without [OF ok2] add_term_eq [OF ne(2)])
  have okD: "terms_ok (doc_terms (doc ?D'))"
    using okG by (simp add: terms_ok_post_term)
  have none: "\<forall>x \<in> set (doc_terms (doc ?G)). \<not> prefix pf x"
    using quiet ne(1) by (auto simp: terms_gen_terms terms_without)
  have f: "filter (prefix pf) (doc_terms (doc ?D')) = [pf @ v]"
    using none by (simp add: filter_post_term_single)
  have g: "get_terms pf ?D' = [v]"
    using f by (simp add: get_terms_eq)
  from run okD f g show ?thesis by blast
qed

lemma set_title_eq:
  "set_title tg v D =
    (case remove_each ''S'' (get_terms ''S'' D) D of
                 Inl e \<Rightarrow> Inl e
               | Inr D1 \<Rightarrow>
                   (case remove_each ''ZS'' (get_terms ''ZS'' D1) D1 of
                      Inl e \<Rightarrow> Inl e
                    | Inr D2 \<Rightarrow>
                        (case remove_each ''XTITLE:'' (get_terms ''XTITLE:'' D2) D2 of
                           Inl e \<Rightarrow> Inl e
                         | Inr D3 \<Rightarrow> add_term ''XTITLE:'' v (gen_terms tg (Some ''S'') v D3))))"
  by (simp add: set_title_def find_prefix_values Let_def)

lemma set_authors_eq:
  "set_authors tg v D =
    (case remove_each ''A'' (get_terms ''A'' D) D of
                 Inl e \<Rightarrow> Inl e
               | Inr D1 \<Rightarrow>
                   (case remove_each ''ZA'' (get_terms ''ZA'' D1) D1 of
                      Inl e \<Rightarrow> Inl e
                    | Inr D2 \<Rightarrow>
                        (case remove_each ''XAUTHORS:'' (get_terms ''XAUTHORS:'' D2) D2 of
                           Inl e \<Rightarrow> Inl e
                         | Inr D3 \<Rightarrow> add_term ''XAUTHORS:'' v (gen_terms tg (Some ''A'') v D3))))"
  by (simp add: set_authors_def find_prefix_values Let_def)

lemma replace_verbatim_runs:
  fixes v pt z pf :: string and D :: Document
  assumes ok: "terms_ok (doc_terms (doc D))" and ne: "pt \<noteq> []" "pf \<noteq> []"
  shows "\<exists>D'. (case remove_each pt (get_terms pt D) D of
                 Inl e \<Rightarrow> Inl e
               | Inr D1 \<Rightarrow>
                   (case remove_each z (get_terms z D1) D1 of
                      Inl e \<Rightarrow> Inl e
                    | Inr D2 \<Rightarrow>
                        (case remove_each pf (get_terms pf D2) D2 of
                           Inl e \<Rightarrow> Inl e
                         | Inr D3 \<Rightarrow> add_term pf v (gen_terms tg (Some pt) v D3)))) = Inr D'
            \<and> terms_ok (doc_terms (doc D'))"
proof -
  let ?D1 = "without_prefix pt D"
  let ?D2 = "without_prefix z ?D1"
  let ?D3 = "without_prefix pf ?D2"
  let ?G = "gen_terms tg (Some pt) v ?D3"
  let ?D' = "?G\<lparr>doc := (doc ?G)\<lparr>doc_terms := post_term (pf @ v) (doc_terms (doc ?G))\<rparr>\<rparr>"
  have ok1: "terms_ok (doc_terms (doc ?D1))" using ok by (rule terms_ok_without)
  have ok2: "terms_ok (doc_terms (doc ?D2))" using ok1 by (rule terms_ok_without)
  have ok3: "terms_ok (doc_terms (doc ?D3))" using ok2 by (rule terms_ok_without)
  have okG: "terms_ok (doc_terms (doc ?G))" using ok3 by (rule terms_ok_gen_terms)
  have run: "(case remove_each pt (get_terms pt D) D of
                 Inl e \<Rightarrow> Inl e
               | Inr D1 \<Rightarrow>
                   (case remove_each z (get_terms z D1) D1 of
                      Inl e \<Rightarrow> Inl e
                    | Inr D2 \<Rightarrow>
                        (case remove_each pf (get_terms pf D2) D2 of
                           Inl e \<Rightarrow> Inl e
                         | Inr D3 \<Rightarrow> add_term pf v (gen_terms tg (Some pt) v D3)))) = Inr ?D'"
    by (simp add: remove_each_without [OF ok] remove_each_without [OF ok1]
        remove_each_without [OF ok2] add_term_eq [OF ne(2)])
  have okD: "terms_ok (doc_terms (doc ?D'))"
    using okG by (simp add: terms_ok_post_term)
  from run okD show ?thesis by blast
qed

section \<open>Single-valued fields\<close>

text \<open>
  C4: on a document of the engine (its term map in order, no term twice), calling the
  setter of a single-valued field with \<open>v1\<close> and then with \<open>v2\<close> succeeds both times and
  leaves exactly one term under the field's prefix, the one for \<open>v2\<close>, which the getter
  returns. This holds for url (\<open>U\<close>) and year (\<open>Y\<close>), and for the verbatim copies of
  title (\<open>XTITLE:\<close>) and authors (\<open>XAUTHORS:\<close>) provided the engine's term generator
  posts no term under the verbatim prefix for \<open>v2\<close> (it posts lower-cased words, alone
  and behind the probabilistic prefix and \<open>Z\<close>).
\<close>

theorem setters_replace:
  assumes ok: "terms_ok (doc_terms (doc D))"
  shows "(\<exists>D1 D2. set_url v1 D = Inr D1 \<and> set_url v2 D1 = Inr D2
            \<and> filter (prefix ''U'') (doc_terms (doc D2)) = [''U'' @ v2]
            \<and> get_url D2 = v2)
       \<and> (\<exists>D1 D2. set_year v1 D = Inr D1 \<and> set_year v2 D1 = Inr D2
            \<and> filter (prefix ''Y'') (doc_terms (doc D2)) = [''Y'' @ v2]
            \<and> get_year D2 = v2)
       \<and> ((\<forall>t \<in> set (tg v2 ''S'') \<union> set (tg v2 []). \<not> prefix ''XTITLE:'' t) \<longrightarrow>
           (\<exists>D1 D2. set_title tg v1 D = Inr D1 \<and> set_title tg v2 D1 = Inr D2
            \<and> filter (prefix ''XTITLE:'') (doc_terms (doc D2)) = [''XTITLE:'' @ v2]
            \<and> get_title D2 = v2))
       \<and> ((\<forall>t \<in> set (tg v2 ''A'') \<union> set (tg v2 []). \<not> prefix ''XAUTHORS:'' t) \<longrightarrow>
           (\<exists>D1 D2. set_authors tg v1 D = Inr D1 \<and> set_authors tg v2 D1 = Inr D2
            \<and> filter (prefix ''XAUTHORS:'') (doc_terms (doc D2)) = [''XAUTHORS:'' @ v2]
            \<and> get_authors D2 = v2))"
proof (intro conjI impI)
  have ne: "''U'' \<noteq> []" by simp
  note r1 = replace_under_prefix [OF ok ne, of v1]
  note r2 = replace_under_prefix [OF r1(2) ne, of v2]
  have "get_url (D2 :: Document) = v2" if "get_terms ''U'' D2 = [v2]" for D2
    using that by (simp add: get_url_def find_prefix_values Let_def)
  with r1(1) r2(1) r2(3) r2(4)
  show "\<exists>D1 D2. set_url v1 D = Inr D1 \<and> set_url v2 D1 = Inr D2
            \<and> filter (prefix ''U'') (doc_terms (doc D2)) = [''U'' @ v2] \<and> get_url D2 = v2"
    unfolding set_url_eq by blast
next
  have ne: "''Y'' \<noteq> []" by simp
  note r1 = replace_under_prefix [OF ok ne, of v1]
  note r2 = replace_under_prefix [OF r1(2) ne, of v2]
  have "get_year (D2 :: Document) = v2" if "get_terms ''Y'' D2 = [v2]" for D2
    using that by (simp add: get_year_def find_prefix_values Let_def)
  with r1(1) r2(1) r2(3) r2(4)
  show "\<exists>D1 D2. set_year v1 D = Inr D1 \<and> set_year v2 D1 = Inr D2
            \<and> filter (prefix ''Y'') (doc_terms (doc D2)) = [''Y'' @ v2] \<and> get_year D2 = v2"
    unfolding set_year_eq by blast
next
  assume q2: "\<forall>t \<in> set (tg v2 ''S'') \<union> set (tg v2 []). \<not> prefix ''XTITLE:'' t"
  have ne: "''S'' \<noteq> []" "''XTITLE:'' \<noteq> []" by simp_all
  from replace_verbatim_runs [where tg = tg and v = v1 and pt = "''S''" and pf = "''XTITLE:''"
      and z = "''ZS''", OF ok ne]
  obtain D1 where a: "set_title tg v1 D = Inr D1" and ok1: "terms_ok (doc_terms (doc D1))"
    unfolding set_title_eq by auto
  from replace_verbatim [where tg = tg and v = v2 and pt = "''S''" and pf = "''XTITLE:''"
      and z = "''ZS''", OF ok1 ne q2]
  obtain D2 where b: "set_title tg v2 D1 = Inr D2"
    and f: "filter (prefix ''XTITLE:'') (doc_terms (doc D2)) = [''XTITLE:'' @ v2]"
    and g: "get_terms ''XTITLE:'' D2 = [v2]"
    unfolding set_title_eq by auto
  from g have "get_title D2 = v2" by (simp add: get_title_def find_prefix_values Let_def)
  with a b f
  show "\<exists>D1 D2. set_title tg v1 D = Inr D1 \<and> set_title tg v2 D1 = Inr D2
            \<and> filter (prefix ''XTITLE:'') (doc_terms (doc D2)) = [''XTITLE:'' @ v2]
            \<and> get_title D2 = v2"
    by blast
next
  assume q2: "\<forall>t \<in> set (tg v2 ''A'') \<union> set (tg v2 []). \<not> prefix ''XAUTHORS:'' t"
  have ne: "''A'' \<noteq> []" "''XAUTHORS:'' \<noteq> []" by simp_all
  from replace_verbatim_runs [where tg = tg and v = v1 and pt = "''A''" and pf = "''XAUTHORS:''"
      and z = "''ZA''", OF ok ne]
  obtain D1 where a: "set_authors tg v1 D = Inr D1" and ok1: "terms_ok (doc_terms (doc D1))"
    unfolding set_authors_eq by auto
  from replace_verbatim [where tg = tg and v = v2 and pt = "''A''" and pf = "''XAUTHORS:''"
      and z = "''ZA''", OF ok1 ne q2]
  obtain D2 where b: "set_authors tg v2 D1 = Inr D2"
    and f: "filter (prefix ''XAUTHORS:'') (doc_terms (doc D2)) = [''XAUTHORS:'' @ v2]"
    and g: "get_terms ''XAUTHORS:'' D2 = [v2]"
    unfolding set_authors_eq by auto
  from g have "get_authors D2 = v2" by (simp add: get_authors_def find_prefix_values Let_def)
  with a b f
  show "\<exists>D1 D2. set_authors tg v1 D = Inr D1 \<and> set_authors tg v2 D1 = Inr D2
            \<and> filter (prefix ''XAUTHORS:'') (doc_terms (doc D2)) = [''XAUTHORS:'' @ v2]
            \<and> get_authors D2 = v2"
    by blast
qed

theorem setters_replace_witness:
  "(\<exists>D1 D2. set_url ''a'' \<lparr>doc = \<lparr>doc_terms = [''Q1''], doc_data = [], doc_id = 0\<rparr>,
                              docid = 1, self_path = None\<rparr> = Inr D1
            \<and> set_url ''b'' D1 = Inr D2
            \<and> filter (prefix ''U'') (doc_terms (doc D2)) = [''U'' @ ''b'']
            \<and> get_url D2 = ''b'')
   \<and> (\<exists>D1 D2. set_year ''a'' \<lparr>doc = \<lparr>doc_terms = [''Q1''], doc_data = [], doc_id = 0\<rparr>,
                              docid = 1, self_path = None\<rparr> = Inr D1
            \<and> set_year ''b'' D1 = Inr D2
            \<and> filter (prefix ''Y'') (doc_terms (doc D2)) = [''Y'' @ ''b'']
            \<and> get_year D2 = ''b'')
   \<and> (\<exists>D1 D2. set_title (\<lambda>text pfx. [pfx @ text]) ''a''
                   \<lparr>doc = \<lparr>doc_terms = [''Q1''], doc_data = [], doc_id = 0\<rparr>,
                    docid = 1, self_path = None\<rparr> = Inr D1
            \<and> set_title (\<lambda>text pfx. [pfx @ text]) ''b'' D1 = Inr D2
            \<and> filter (prefix ''XTITLE:'') (doc_terms (doc D2)) = [''XTITLE:'' @ ''b'']
            \<and> get_title D2 = ''b'')
   \<and> (\<exists>D1 D2. set_authors (\<lambda>text pfx. [pfx @ text]) ''a''
                   \<lparr>doc = \<lparr>doc_terms = [''Q1''], doc_data = [], doc_id = 0\<rparr>,
                    docid = 1, self_path = None\<rparr> = Inr D1
            \<and> set_authors (\<lambda>text pfx. [pfx @ text]) ''b'' D1 = Inr D2
            \<and> filter (prefix ''XAUTHORS:'') (doc_terms (doc D2)) = [''XAUTHORS:'' @ ''b'']
            \<and> get_authors D2 = ''b'')"
proof -
  let ?D = "\<lparr>doc = \<lparr>doc_terms = [''Q1''], doc_data = [], doc_id = 0\<rparr>, docid = 1, self_path = None\<rparr>"
  let ?tg = "\<lambda>(text :: string) (pfx :: string). [pfx @ text]"
  have ok: "terms_ok (doc_terms (doc ?D))" by (simp add: terms_ok_def)
  have q1: "\<forall>t \<in> set (?tg ''b'' ''S'') \<union> set (?tg ''b'' []). \<not> prefix ''XTITLE:'' t" by simp
  have q2: "\<forall>t \<in> set (?tg ''b'' ''A'') \<union> set (?tg ''b'' []). \<not> prefix ''XAUTHORS:'' t" by simp
  from setters_replace [OF ok, where ?v1.0 = "''a''" and ?v2.0 = "''b''" and tg = ?tg] q1 q2
  show ?thesis by blast
qed

section \<open>Sources\<close>

lemma dom_get_sources_loop: "dom (get_sources_loop D vs m) \<subseteq> dom m \<union> set vs"
proof (induction vs arbitrary: m)
  case Nil
  then show ?case by simp
next
  case (Cons a vs)
  show ?case
  proof (cases "a = []")
    case True
    then show ?thesis by auto
  next
    case False
    have "dom (get_sources_loop D vs (m(a \<mapsto> get_source_id a D)))
            \<subseteq> dom (m(a \<mapsto> get_source_id a D)) \<union> set vs"
      by (rule Cons.IH)
    also have "\<dots> = dom m \<union> set (a # vs)" by simp
    finally show ?thesis using False by simp
  qed
qed

lemma in_get_terms_iff: "v \<in> set (get_terms pfx D) \<longleftrightarrow> pfx @ v \<in> set (doc_terms (doc D))"
proof
  assume "v \<in> set (get_terms pfx D)"
  then obtain t where t: "t \<in> set (doc_terms (doc D))" "prefix pfx t" "v = drop (length pfx) t"
    by (auto simp: get_terms_eq)
  then have "pfx @ v = t" by (simp add: restore_prefix)
  with t show "pfx @ v \<in> set (doc_terms (doc D))" by simp
next
  assume "pfx @ v \<in> set (doc_terms (doc D))"
  then have "pfx @ v \<in> {t \<in> set (doc_terms (doc D)). prefix pfx t}" by simp
  then have "drop (length pfx) (pfx @ v) \<in> drop (length pfx) ` {t \<in> set (doc_terms (doc D)). prefix pfx t}"
    by (rule imageI)
  then show "v \<in> set (get_terms pfx D)" by (simp add: get_terms_eq)
qed

lemma get_sources_dom:
  assumes "source \<in> dom (get_sources D)"
  shows "''XSOURCE:'' @ source \<in> set (doc_terms (doc D))"
proof -
  have "dom (get_sources D) \<subseteq> set (get_terms ''XSOURCE:'' D)"
    using dom_get_sources_loop [of D "get_terms ''XSOURCE:'' D" Map.empty]
    by (simp add: get_sources_def find_prefix_values Let_def)
  with assms have "source \<in> set (get_terms ''XSOURCE:'' D)" by blast
  then show ?thesis by (simp only: in_get_terms_iff)
qed

lemma get_source_id_None:
  "\<forall>t \<in> set (doc_terms (doc D)). \<not> prefix (make_source_prefix source) t \<Longrightarrow> get_source_id source D = None"
  by (simp add: get_source_id_def get_terms_eq Let_def)

lemma upper_char_colon: "upper_char c = CHR '':'' \<Longrightarrow> c = CHR '':''"
  unfolding upper_char_def
  by (simp split: option.splits if_splits)

lemma upper_colon_free:
  assumes "CHR '':'' \<notin> set s"
  shows "CHR '':'' \<notin> set (upper s)"
proof
  assume "CHR '':'' \<in> set (upper s)"
  then have "CHR '':'' \<in> upper_char ` set s" by (simp add: upper_def)
  then obtain c where c: "c \<in> set s" and "CHR '':'' = upper_char c" by (rule imageE)
  then have "c = CHR '':''" using upper_char_colon [of c] by simp
  with c assms show False by simp
qed

lemma takeWhile_upto: "x \<notin> set xs \<Longrightarrow> takeWhile (\<lambda>c. c \<noteq> x) (xs @ x # ys) = xs"
  by (induction xs) auto

lemma source_prefix_apart:
  assumes nocolon: "CHR '':'' \<notin> set source" and other: "upper source \<noteq> ''SOURCE''"
  shows "\<not> prefix (make_source_prefix source) (''XSOURCE:'' @ source)"
proof
  assume "prefix (make_source_prefix source) (''XSOURCE:'' @ source)"
  then obtain zs where eq: "''SOURCE:'' @ source = upper source @ CHR '':'' # zs"
    by (auto simp: make_source_prefix_def prefix_def)
  from nocolon have u: "CHR '':'' \<notin> set (upper source)" by (rule upper_colon_free)
  have "upper source = takeWhile (\<lambda>c. c \<noteq> CHR '':'') (upper source @ CHR '':'' # zs)"
    using u by (rule takeWhile_upto [symmetric])
  also have "\<dots> = takeWhile (\<lambda>c. c \<noteq> CHR '':'') (''SOURCE:'' @ source)"
    by (simp only: eq)
  also have "\<dots> = ''SOURCE''"
    by simp
  finally have "upper source = ''SOURCE''" .
  with other show False by simp
qed

lemma remove_each_in_place_agrees:
  "remove_each pfx vs D = Inr D' \<Longrightarrow> remove_each_in_place pfx vs D = (None, D')"
  by (induction vs arbitrary: D) (auto split: sum.splits)

lemma remove_each_in_place_without:
  "terms_ok (doc_terms (doc D)) \<Longrightarrow>
     remove_each_in_place pfx (get_terms pfx D) D = (None, without_prefix pfx D)"
  by (rule remove_each_in_place_agrees) (rule remove_each_without)

text \<open>
  What \<open>remove_source\<close> does on every document of the engine: the loop clears the dynamic
  prefix; the removal of the membership term then succeeds when the term is still there,
  and raises, changing nothing, when it is not.
\<close>

lemma remove_source_outcome:
  assumes ok: "terms_ok (doc_terms (doc D))"
  shows "remove_source source D =
           (let D1 = without_prefix (make_source_prefix source) D
            in if ''XSOURCE:'' @ source \<in> set (doc_terms (doc D1))
               then (None, D1\<lparr>doc := (doc D1)\<lparr>doc_terms :=
                              removeAll (''XSOURCE:'' @ source) (doc_terms (doc D1))\<rparr>\<rparr>)
               else (Some InvalidArgumentError, D1))"
  by (simp add: remove_source_def Let_def find_prefix_values remove_each_in_place_without [OF ok]
      remove_term_def xapian_remove_term_def)

text \<open>
  A source named \<open>source\<close> has the dynamic prefix \<open>XSOURCE:\<close>, the prefix of the
  membership terms: the loop removes the membership term with the id term, and the
  removal of the membership term that follows raises, with both already gone.
\<close>

lemma remove_source_named_source:
  "add_source ''source'' ''id1'' \<lparr>doc = xapian_Document, docid = 1, self_path = None\<rparr>
     = Inr \<lparr>doc = \<lparr>doc_terms = [''XSOURCE:id1'', ''XSOURCE:source''], doc_data = [], doc_id = 0\<rparr>,
            docid = 1, self_path = None\<rparr>
   \<and> remove_source ''source''
        \<lparr>doc = \<lparr>doc_terms = [''XSOURCE:id1'', ''XSOURCE:source''], doc_data = [], doc_id = 0\<rparr>,
         docid = 1, self_path = None\<rparr>
     = (Some InvalidArgumentError,
        \<lparr>doc = \<lparr>doc_terms = [], doc_data = [], doc_id = 0\<rparr>, docid = 1, self_path = None\<rparr>)"
  by (simp add: add_source_def remove_source_def find_prefix_values add_term_def xapian_add_term_def
     post_term_def xapian_Document_def make_source_prefix_def upper_def upper_char_def
     get_terms_def str_find_def remove_term_def xapian_remove_term_def)

text \<open>
  C5: on a document of the engine that holds the membership term of a source,
  \<open>remove_source\<close> leaves a document with neither the membership term nor any term
  under the source's dynamic prefix; on that document \<open>get_sources\<close> does not include the
  source and \<open>get_source_id\<close> returns \<open>None\<close>. The call returns normally unless the
  membership term itself begins with the dynamic prefix; then the terms are removed all
  the same and the call ends with the engine's exception.
\<close>

theorem remove_source_removes_both:
  assumes ok: "terms_ok (doc_terms (doc D))"
    and held: "''XSOURCE:'' @ source \<in> set (doc_terms (doc D))"
  shows "\<exists>e D'. remove_source source D = (e, D')
           \<and> ''XSOURCE:'' @ source \<notin> set (doc_terms (doc D'))
           \<and> (\<forall>t \<in> set (doc_terms (doc D')). \<not> prefix (make_source_prefix source) t)
           \<and> source \<notin> dom (get_sources D')
           \<and> get_source_id source D' = None
           \<and> (e = None \<longleftrightarrow> \<not> prefix (make_source_prefix source) (''XSOURCE:'' @ source))"
proof -
  let ?dyn = "make_source_prefix source"
  let ?mem = "''XSOURCE:'' @ source"
  let ?D1 = "without_prefix ?dyn D"
  let ?D2 = "?D1\<lparr>doc := (doc ?D1)\<lparr>doc_terms := removeAll ?mem (doc_terms (doc ?D1))\<rparr>\<rparr>"
  show ?thesis
  proof (cases "prefix ?dyn ?mem")
    case True
    then have absent: "?mem \<notin> set (doc_terms (doc ?D1))"
      by (simp add: terms_without)
    then have run: "remove_source source D = (Some InvalidArgumentError, ?D1)"
      by (simp add: remove_source_outcome [OF ok] Let_def)
    have none: "\<forall>t \<in> set (doc_terms (doc ?D1)). \<not> prefix ?dyn t"
      by (simp add: terms_without)
    have srcs: "source \<notin> dom (get_sources ?D1)"
      using absent get_sources_dom [of source ?D1] by blast
    have sid: "get_source_id source ?D1 = None"
      using none by (rule get_source_id_None)
    from run absent none srcs sid True show ?thesis by blast
  next
    case False
    with held have present: "?mem \<in> set (doc_terms (doc ?D1))"
      by (simp add: terms_without)
    then have run: "remove_source source D = (None, ?D2)"
      by (simp add: remove_source_outcome [OF ok] Let_def)
    have gone: "?mem \<notin> set (doc_terms (doc ?D2))"
      by simp
    have none: "\<forall>t \<in> set (doc_terms (doc ?D2)). \<not> prefix ?dyn t"
      by (simp add: terms_without)
    have srcs: "source \<notin> dom (get_sources ?D2)"
      using gone get_sources_dom [of source ?D2] by blast
    have sid: "get_source_id source ?D2 = None"
      using none by (rule get_source_id_None)
    from run gone none srcs sid False show ?thesis by blast
  qed
qed

theorem remove_source_removes_both_witness:
  "terms_ok (doc_terms (doc 
      \<lparr>doc = \<lparr>doc_terms = [''Q1'', ''XDOI:10.1/x'', ''XSOURCE:doi''], doc_data = [], doc_id = 0\<rparr>,
        docid = 1, self_path = None\<rparr>))
   \<and> ''XSOURCE:'' @ ''doi'' \<in> set (doc_terms (doc 
      \<lparr>doc = \<lparr>doc_terms = [''Q1'', ''XDOI:10.1/x'', ''XSOURCE:doi''], doc_data = [], doc_id = 0\<rparr>,
        docid = 1, self_path = None\<rparr>))
   \<and> (\<exists>e D'. remove_source ''doi'' 
      \<lparr>doc = \<lparr>doc_terms = [''Q1'', ''XDOI:10.1/x'', ''XSOURCE:doi''], doc_data = [], doc_id = 0\<rparr>,
        docid = 1, self_path = None\<rparr> = (e, D')
           \<and> ''XSOURCE:'' @ ''doi'' \<notin> set (doc_terms (doc D'))
           \<and> (\<forall>t \<in> set (doc_terms (doc D')). \<not> prefix (make_source_prefix ''doi'') t)
           \<and> ''doi'' \<notin> dom (get_sources D')
           \<and> get_source_id ''doi'' D' = None
           \<and> (e = None \<longleftrightarrow> \<not> prefix (make_source_prefix ''doi'') (''XSOURCE:'' @ ''doi'')))"
proof -
  have h1: "terms_ok (doc_terms (doc 
      \<lparr>doc = \<lparr>doc_terms = [''Q1'', ''XDOI:10.1/x'', ''XSOURCE:doi''], doc_data = [], doc_id = 0\<rparr>,
        docid = 1, self_path = None\<rparr>))"
    by (simp add: terms_ok_def)
  have h2: "''XSOURCE:'' @ ''doi'' \<in> set (doc_terms (doc 
      \<lparr>doc = \<lparr>doc_terms = [''Q1'', ''XDOI:10.1/x'', ''XSOURCE:doi''], doc_data = [], doc_id = 0\<rparr>,
        docid = 1, self_path = None\<rparr>))"
    by simp
  from remove_source_removes_both [OF h1 h2] h1 h2 show ?thesis by blast
qed

section \<open>Document ids\<close>

lemma Document_init_new:
  "Document_init db None =
     Inr \<lparr>doc = \<lparr>doc_terms = [''Q'' @ str_of_nat (generate_docid db)], doc_data = [], doc_id = 0\<rparr>,
          docid = generate_docid db, self_path = None\<rparr>"
  by (simp add: Document_init_def find_prefix_values add_term_def xapian_add_term_def
      post_term_def xapian_Document_def Let_def)

lemma lastdocid_sync:
  "sync D db = Inr db' \<Longrightarrow> lastdocid (xapian_db db') = max (lastdocid (xapian_db db)) (docid D)"
  by (auto simp: sync_def replace_document_def split: if_splits)

lemma lastdocid_after_syncs: "lastdocid (xapian_db db) \<le> lastdocid (xapian_db (after_syncs Ds db))"
proof (induction Ds arbitrary: db)
  case Nil
  then show ?case by simp
next
  case (Cons D Ds)
  show ?case
  proof (cases "sync D db")
    case (Inl e)
    with Cons.IH [of db] show ?thesis by simp
  next
    case (Inr db')
    from lastdocid_sync [OF Inr] have "lastdocid (xapian_db db) \<le> lastdocid (xapian_db db')" by simp
    also have "\<dots> \<le> lastdocid (xapian_db (after_syncs Ds db'))" by (rule Cons.IH)
    finally show ?thesis using Inr by simp
  qed
qed

text \<open>
  C2 (as stated, refuted): on an empty database a new Document receives the id 1, and
  \<open>_generate_docid\<close> on the database, which the construction has not written to, returns 1
  again.
\<close>

theorem generate_docid_repeats_unsynced_id:
  "Document_init \<lparr>db_root = ''/lib'', xapian_db = \<lparr>documents = [], lastdocid = 0\<rparr>\<rparr> None
     = Inr \<lparr>doc = \<lparr>doc_terms = [''Q1''], doc_data = [], doc_id = 0\<rparr>, docid = 1, self_path = None\<rparr>
   \<and> generate_docid \<lparr>db_root = ''/lib'', xapian_db = \<lparr>documents = [], lastdocid = 0\<rparr>\<rparr> = 1"
  by (simp add: Document_init_def generate_docid_def get_lastdocid_def find_prefix_values
      add_term_def xapian_add_term_def post_term_def xapian_Document_def str_of_nat.simps)

text \<open>
  C2 (amended): constructing a new Document always succeeds and gives it the id that
  \<open>_generate_docid\<close> returns on the unchanged database, so the id is handed out again
  for as long as the Document is not synced; syncing the Document succeeds, and after it
  every later \<open>_generate_docid\<close> of the session, whatever is synced in between, returns a
  greater id.
\<close>

theorem docid_not_reused_once_synced:
  "\<exists>D db'. Document_init db None = Inr D
      \<and> generate_docid db = docid D
      \<and> sync D db = Inr db'
      \<and> (\<forall>Ds. docid D < generate_docid (after_syncs Ds db'))"
proof -
  let ?D = "\<lparr>doc = \<lparr>doc_terms = [''Q'' @ str_of_nat (generate_docid db)], doc_data = [], doc_id = 0\<rparr>,
          docid = generate_docid db, self_path = None\<rparr>"
  obtain db' where s: "sync ?D db = Inr db'"
    by (simp add: sync_def replace_document_def generate_docid_def)
  have "docid ?D < generate_docid (after_syncs Ds db')" for Ds
  proof -
    from lastdocid_sync [OF s] have "docid ?D \<le> lastdocid (xapian_db db')" by simp
    also have "\<dots> \<le> lastdocid (xapian_db (after_syncs Ds db'))" by (rule lastdocid_after_syncs)
    finally show ?thesis by (simp add: generate_docid_def get_lastdocid_def)
  qed
  with s Document_init_new [of db] show ?thesis by auto
qed

section \<open>Counting\<close>

text \<open>
  C7 (evaluated): \<open>count\<close> passes the keyword \<open>count\<close> to \<open>_search\<close>, whose parameters are
  \<open>query_string\<close> and \<open>limit\<close>; the call raises \<open>TypeError\<close> for every query string and
  every database, and no number is returned.
\<close>

theorem count_raises_TypeError: "count qp db query_string = Inl TypeError"
  by (simp add: count_def call_search_def)

section \<open>Lookup by a unique term\<close>

lemma doc_for_term_no_match:
  "\<forall>d \<in> set (documents (xapian_db db)). t \<notin> set (doc_terms d) \<Longrightarrow> doc_for_term db t = Inr None"
  by (simp add: doc_for_term_def get_mset_def)

text \<open>
  C8 (evaluated): in a database where two documents hold the same path term, and in one
  where two documents hold the same id term, the lookup returns the first match and
  raises nothing.
\<close>

theorem doc_for_term_returns_first_of_two:
  "doc_for_path
      \<lparr>db_root = ''/lib'',
       xapian_db = \<lparr>documents = [\<lparr>doc_terms = [''Ppaper.pdf'', ''Q1''], doc_data = [], doc_id = 1\<rparr>,
                                 \<lparr>doc_terms = [''Ppaper.pdf'', ''Q2''], doc_data = [], doc_id = 2\<rparr>],
                    lastdocid = 2\<rparr>\<rparr> ''paper.pdf''
     = Inr (Some \<lparr>doc = \<lparr>doc_terms = [''Ppaper.pdf'', ''Q1''], doc_data = [], doc_id = 1\<rparr>,
                  docid = 1, self_path = Some [''paper.pdf'']\<rparr>)
   \<and> doc_for_docid
      \<lparr>db_root = ''/lib'',
       xapian_db = \<lparr>documents = [\<lparr>doc_terms = [''Pa.pdf'', ''Q7''], doc_data = [], doc_id = 1\<rparr>,
                                 \<lparr>doc_terms = [''Pb.pdf'', ''Q7''], doc_data = [], doc_id = 2\<rparr>],
                    lastdocid = 2\<rparr>\<rparr> ''7''
     = Inr (Some \<lparr>doc = \<lparr>doc_terms = [''Pa.pdf'', ''Q7''], doc_data = [], doc_id = 1\<rparr>,
                  docid = 1, self_path = Some [''a.pdf'']\<rparr>)"
  by (simp add: doc_for_path_def doc_for_docid_def doc_for_term_def
      find_prefix_values get_mset_def Document_init_def get_terms_def str_find_def)

section \<open>Adding a file\<close>

lemma unpack_pair_not_two: "length s \<noteq> 2 \<Longrightarrow> unpack_pair (Some s) = Inl ValueError"
  by (cases "Some s" rule: unpack_pair.cases) auto

lemma add_file_relative_path:
  assumes "\<not> prefix ''/'' path" and "length path \<noteq> 2"
  shows "add_file parse_file tg db path D = Inl ValueError"
  using assms by (simp add: add_file_def basename_for_path_def str_find_zero_iff unpack_pair_not_two)

text \<open>
  C3 (evaluated): the database holds a document with the path term of \<open>paper.pdf\<close>, and
  \<open>doc_for_path\<close> finds it under the id 1; \<open>add_file\<close> on that path, on any document and
  with any extractor and term generator, ends with \<open>ValueError\<close> at the unpacking of the
  resolved path, before the duplicate check is reached.
\<close>

theorem add_file_existing_path_raises_ValueError:
  "doc_for_path
      \<lparr>db_root = ''/lib'',
       xapian_db = \<lparr>documents = [\<lparr>doc_terms = [''Ppaper.pdf'', ''Q1''], doc_data = [], doc_id = 1\<rparr>],
                    lastdocid = 1\<rparr>\<rparr> ''paper.pdf''
     = Inr (Some \<lparr>doc = \<lparr>doc_terms = [''Ppaper.pdf'', ''Q1''], doc_data = [], doc_id = 1\<rparr>,
                  docid = 1, self_path = Some [''paper.pdf'']\<rparr>)
   \<and> add_file parse_file tg
      \<lparr>db_root = ''/lib'',
       xapian_db = \<lparr>documents = [\<lparr>doc_terms = [''Ppaper.pdf'', ''Q1''], doc_data = [], doc_id = 1\<rparr>],
                    lastdocid = 1\<rparr>\<rparr> ''paper.pdf'' D
     = Inl ValueError"
  by (simp add: add_file_def basename_for_path_def str_find_def doc_for_path_def doc_for_term_def
      find_prefix_values get_mset_def Document_init_def get_terms_def)

section \<open>Generated terms\<close>

text \<open>
  C9: \<open>_gen_terms\<close> removes no term of the document; the terms posted for the text are in
  the document after the call; and a second call with the same prefix and text leaves every
  term that was there after the first call in place.
\<close>

theorem gen_terms_only_adds:
  "set (doc_terms (doc D)) \<subseteq> set (doc_terms (doc (gen_terms tg pfx text D)))
   \<and> set (tg text []) \<subseteq> set (doc_terms (doc (gen_terms tg pfx text D)))
   \<and> set (doc_terms (doc (gen_terms tg pfx text D)))
       \<subseteq> set (doc_terms (doc (gen_terms tg pfx text (gen_terms tg pfx text D))))"
  by (auto simp: terms_gen_terms)

section \<open>Getters of the single-valued fields\<close>

lemma first_of_filter:
  "(case map f (filter P ts) of v # _ \<Rightarrow> v | [] \<Rightarrow> d) =
     (case List.find P ts of None \<Rightarrow> d | Some t \<Rightarrow> f t)"
  by (induction ts) auto

lemma first_under_prefix:
  "(case get_terms pfx D of v # _ \<Rightarrow> v | [] \<Rightarrow> []) =
     (case List.find (prefix pfx) (doc_terms (doc D)) of
        None \<Rightarrow> []
      | Some t \<Rightarrow> drop (length pfx) t)"
  unfolding get_terms_eq by (rule first_of_filter)

text \<open>
  C10: when no term of the document is under the field's prefix (\<open>List.find\<close> finds
  none), \<open>get_url\<close>, \<open>get_title\<close>, \<open>get_authors\<close> and \<open>get_year\<close> return the empty
  string; otherwise they return the first term under the prefix, in the order of the
  document's terms, without the prefix.
\<close>

theorem getters_empty_or_first:
  "(List.find (prefix ''U'') (doc_terms (doc D)) = None \<longrightarrow> get_url D = [])
   \<and> (List.find (prefix ''U'') (doc_terms (doc D)) = Some t \<longrightarrow> get_url D = drop (length ''U'') t)
   \<and> (List.find (prefix ''XTITLE:'') (doc_terms (doc D)) = None \<longrightarrow> get_title D = [])
   \<and> (List.find (prefix ''XTITLE:'') (doc_terms (doc D)) = Some t
        \<longrightarrow> get_title D = drop (length ''XTITLE:'') t)
   \<and> (List.find (prefix ''XAUTHORS:'') (doc_terms (doc D)) = None \<longrightarrow> get_authors D = [])
   \<and> (List.find (prefix ''XAUTHORS:'') (doc_terms (doc D)) = Some t
        \<longrightarrow> get_authors D = drop (length ''XAUTHORS:'') t)
   \<and> (List.find (prefix ''Y'') (doc_terms (doc D)) = None \<longrightarrow> get_year D = [])
   \<and> (List.find (prefix ''Y'') (doc_terms (doc D)) = Some t \<longrightarrow> get_year D = drop (length ''Y'') t)"
  by (simp add: get_url_def get_title_def get_authors_def get_year_def find_prefix_values Let_def
      first_under_prefix)

theorem getters_empty_or_first_witness:
  "get_url \<lparr>doc = xapian_Document, docid = 1, self_path = None\<rparr> = [] \<and> get_title \<lparr>doc = xapian_Document, docid = 1, self_path = None\<rparr> = [] \<and> get_authors \<lparr>doc = xapian_Document, docid = 1, self_path = None\<rparr> = [] \<and> get_year \<lparr>doc = xapian_Document, docid = 1, self_path = None\<rparr> = []
   \<and> get_url 
      \<lparr>doc = \<lparr>doc_terms = [''Q1'', ''Ua'', ''Ub'', ''XAUTHORS:x'', ''XTITLE:t'', ''Y2012''],
             doc_data = [], doc_id = 0\<rparr>, docid = 1, self_path = None\<rparr> = ''a''
   \<and> get_title 
      \<lparr>doc = \<lparr>doc_terms = [''Q1'', ''Ua'', ''Ub'', ''XAUTHORS:x'', ''XTITLE:t'', ''Y2012''],
             doc_data = [], doc_id = 0\<rparr>, docid = 1, self_path = None\<rparr> = ''t''
   \<and> get_authors 
      \<lparr>doc = \<lparr>doc_terms = [''Q1'', ''Ua'', ''Ub'', ''XAUTHORS:x'', ''XTITLE:t'', ''Y2012''],
             doc_data = [], doc_id = 0\<rparr>, docid = 1, self_path = None\<rparr> = ''x''
   \<and> get_year 
      \<lparr>doc = \<lparr>doc_terms = [''Q1'', ''Ua'', ''Ub'', ''XAUTHORS:x'', ''XTITLE:t'', ''Y2012''],
             doc_data = [], doc_id = 0\<rparr>, docid = 1, self_path = None\<rparr> = ''2012''"
proof -
  let ?E = "\<lparr>doc = xapian_Document, docid = 1, self_path = None\<rparr>"
  let ?F = "
      \<lparr>doc = \<lparr>doc_terms = [''Q1'', ''Ua'', ''Ub'', ''XAUTHORS:x'', ''XTITLE:t'', ''Y2012''],
             doc_data = [], doc_id = 0\<rparr>, docid = 1, self_path = None\<rparr>"
  note e = getters_empty_or_first [of ?E "[]"]
  note u = getters_empty_or_first [of ?F "''Ua''"]
  note t = getters_empty_or_first [of ?F "''XTITLE:t''"]
  note a = getters_empty_or_first [of ?F "''XAUTHORS:x''"]
  note y = getters_empty_or_first [of ?F "''Y2012''"]
  from e have "get_url ?E = [] \<and> get_title ?E = [] \<and> get_authors ?E = [] \<and> get_year ?E = []"
    by (simp add: xapian_Document_def)
  moreover from u have "get_url ?F = ''a''" by simp
  moreover from t have "get_title ?F = ''t''" by simp
  moreover from a have "get_authors ?F = ''x''" by simp
  moreover from y have "get_year ?F = ''2012''" by simp
  ultimately show ?thesis by blast
qed

end
